theory Spec2Isabelle
  imports Main
begin

section \<open>Collaborators of \<^verbatim>\<open>fiftyone/core/session.py\<close>\<close>

text \<open>
  The execution context returned by \<^verbatim>\<open>focx._get_context()\<close>: one of the three
  constants \<^verbatim>\<open>focx._NONE\<close>, \<^verbatim>\<open>focx._IPYTHON\<close>, \<^verbatim>\<open>focx._COLAB\<close>.
\<close>

datatype fo_context = NONE | IPYTHON | COLAB

text \<open>
  Datasets and views are objects of other modules. The session only stores them, reads
  the \<^verbatim>\<open>_dataset\<close> back-reference of a view and asks them to reload; a dataset is
  identified here by its name, a view by its dataset and its stages.
\<close>

datatype dataset = Dataset (ds_name: string)

datatype dataset_view = DatasetView (view_dataset: dataset) (view_stages: "string list")

record selected_object =
  object_id :: string
  sample_id :: string
  obj_field :: string
  frame_number :: "nat option"

text \<open>
  The fields of \<^verbatim>\<open>fiftyone.core.state.StateDescription\<close> that the session reads and
  writes. \<^verbatim>\<open>filters\<close> is a dict.
\<close>

record state_description =
  datasets :: "string list"
  dataset :: "dataset option"
  view :: "dataset_view option"
  selected :: "string list"
  selected_objects :: "selected_object list"
  filters :: "string \<rightharpoonup> string"
  close :: bool

text \<open>
  What the module reads from its surroundings during one call:
  \<^verbatim>\<open>focx._get_context()\<close>, \<^verbatim>\<open>fod.list_datasets()\<close>, \<^verbatim>\<open>fo.config.desktop_app\<close>,
  \<^verbatim>\<open>fo.config.do_not_track\<close>, \<^verbatim>\<open>focn.DEV_INSTALL\<close>, and whether
  \<^verbatim>\<open>import fiftyone.desktop\<close> succeeds.
\<close>

record env =
  get_context :: fo_context
  list_datasets :: "string list"
  config_desktop_app :: bool
  config_do_not_track :: bool
  DEV_INSTALL :: bool
  desktop_importable :: bool

text \<open>The URL of a session: \<^verbatim>\<open>"http://localhost:%d" % port\<close>, or the Colab proxy URL.\<close>

datatype url = LocalhostUrl nat | ColabProxyUrl nat

datatype log_message =
    APP_DESKTOP_MESSAGE
  | APP_WEB_MESSAGE nat
  | APP_NOTEBOOK_MESSAGE
  | REMOTE_INSTRUCTIONS nat
  | SHOW_IS_NOOP_WARNING

text \<open>
  Every call that leaves the module is recorded, in the order the calls are made.
  The collaborators themselves are taken to return normally.
\<close>

datatype event =
    ServerServiceNew nat bool
  | ServerServiceStop nat
  | AppServiceNew nat
  | AppServiceStart nat
  | WebbrowserOpen url
  | ListDatasets
  | Push nat state_description
  | DatasetReload dataset
  | DocReload dataset
  | DisplayColab nat int
  | DisplayIpython nat int
  | LoggerInfo log_message
  | LoggerWarn log_message
  | PrintWaitInstructions

datatype value_error =
    RemoteFromNotebook
  | DesktopPackageMissing
  | DesktopFromNotebook
  | RemoteCannotLaunch
  | NotebookCannotLaunch

text \<open>
  The exceptions that the module raises itself: its \<^verbatim>\<open>ValueError\<close>s, the
  \<^verbatim>\<open>KeyError\<close> of the renderer lookup in \<^verbatim>\<open>_display\<close>, and the
  \<^verbatim>\<open>AttributeError\<close> of reading \<^verbatim>\<open>self._app_service\<close> on a session that never
  assigned it.
\<close>

datatype error = ValueError value_error | KeyError fo_context | AttributeError

section \<open>The session object\<close>

text \<open>
  The attributes of a \<^verbatim>\<open>Session\<close>: \<^verbatim>\<open>_context\<close>, \<^verbatim>\<open>_port\<close>, \<^verbatim>\<open>_remote\<close>,
  \<^verbatim>\<open>_disable_wait_warning\<close>, \<^verbatim>\<open>_auto\<close>, \<^verbatim>\<open>_height\<close>, \<^verbatim>\<open>_desktop\<close>, whether
  \<^verbatim>\<open>_app_service\<close> has been created, and the \<^verbatim>\<open>state\<close> attribute that
  \<^verbatim>\<open>HasClient\<close> provides.
\<close>

record session =
  s_context :: fo_context
  s_port :: nat
  s_remote :: bool
  s_disable_wait_warning :: bool
  s_auto :: bool
  s_height :: int
  s_desktop :: bool
  s_app_service :: bool
  state :: state_description

text \<open>
  A method takes the object and the trace so far and returns its result, or the
  exception it raised, with the object and the trace as they are at that point.
\<close>

type_synonym 'a outcome = "(error + 'a) \<times> session \<times> event list"

text \<open>\<^verbatim>\<open>Session._update_state\<close>: \<^verbatim>\<open>self.state = self.state\<close> pushes the state.\<close>

definition Session_update_state :: "session \<Rightarrow> event list \<Rightarrow> event list" where
  "Session_update_state s tr = tr @ [Push (s_port s) (state s)]"

text \<open>
  The decorator \<^verbatim>\<open>_update_state\<close>: run the method; when it returns, refresh
  \<^verbatim>\<open>state.datasets\<close> and push. An exception of the method skips both.
\<close>

definition update_state ::
  "(session \<Rightarrow> event list \<Rightarrow> 'a outcome) \<Rightarrow> env \<Rightarrow> session \<Rightarrow> event list \<Rightarrow> 'a outcome" where
  "update_state func e s tr =
     (case func s tr of
        (Inl err, s1, tr1) \<Rightarrow> (Inl err, s1, tr1)
      | (Inr result, s1, tr1) \<Rightarrow>
          (let s2 = s1\<lparr>state := (state s1)\<lparr>datasets := list_datasets e\<rparr>\<rparr>;
               tr2 = tr1 @ [ListDatasets]
           in (Inr result, s2, Session_update_state s2 tr2)))"

text \<open>
  \<^verbatim>\<open>_display\<close>: a missing height is 800; the renderer is looked up in a dict keyed by
  the current context, which has no entry for \<^verbatim>\<open>_NONE\<close>.
\<close>

definition display' :: "env \<Rightarrow> nat \<Rightarrow> int option \<Rightarrow> event list \<Rightarrow> (error + unit) \<times> event list" where
  "display' e port height tr =
     (let h = (case height of None \<Rightarrow> 800 | Some h0 \<Rightarrow> h0)
      in case get_context e of
           COLAB \<Rightarrow> (Inr (), tr @ [DisplayColab port h])
         | IPYTHON \<Rightarrow> (Inr (), tr @ [DisplayIpython port h])
         | NONE \<Rightarrow> (Inl (KeyError NONE), tr))"

definition display :: "env \<Rightarrow> nat \<Rightarrow> int option \<Rightarrow> event list \<Rightarrow> (error + unit) \<times> event list" where
  "display e port height tr = display' e port height tr"

text \<open>The property \<^verbatim>\<open>Session.dataset\<close>.\<close>

definition Session_dataset :: "session \<Rightarrow> dataset option" where
  "Session_dataset s =
     (case view (state s) of
        Some v \<Rightarrow> Some (view_dataset v)
      | None \<Rightarrow> dataset (state s))"

text \<open>The height that \<^verbatim>\<open>show\<close> hands to \<^verbatim>\<open>display\<close> (lines 356 to 359).\<close>

definition show_height :: "session \<Rightarrow> int \<Rightarrow> int" where
  "show_height s height =
     (if height \<noteq> 800 then height
      else if s_height s \<noteq> 800 then s_height s
      else height)"

text \<open>The body of \<^verbatim>\<open>Session.show\<close>, and the decorated method.\<close>

definition show_body :: "env \<Rightarrow> int \<Rightarrow> session \<Rightarrow> event list \<Rightarrow> unit outcome" where
  "show_body e height s tr =
     (if s_context s = NONE then (Inr (), s, tr @ [LoggerWarn SHOW_IS_NOOP_WARNING])
      else
        (let tr1 = (case Session_dataset s of
                      Some d \<Rightarrow> tr @ [DocReload d]
                    | None \<Rightarrow> tr);
             s1 = s\<lparr>state := (state s)\<lparr>datasets := list_datasets e\<rparr>\<rparr>;
             tr2 = tr1 @ [ListDatasets]
         in case display e (s_port s) (Some (show_height s height)) tr2 of
              (r, tr3) \<Rightarrow> (r, s1, tr3)))"

definition Session_show :: "env \<Rightarrow> int \<Rightarrow> session \<Rightarrow> event list \<Rightarrow> unit outcome" where
  "Session_show e height = update_state (show_body e height) e"

text \<open>\<^verbatim>\<open>Session._auto_show\<close>; \<^verbatim>\<open>show()\<close> is called with its default height.\<close>

definition Session_auto_show :: "env \<Rightarrow> session \<Rightarrow> event list \<Rightarrow> unit outcome" where
  "Session_auto_show e s tr =
     (if s_context s \<noteq> NONE \<and> s_auto s then Session_show e 800 s tr
      else (Inr (), s, tr))"

text \<open>The setter of \<^verbatim>\<open>Session.dataset\<close>.\<close>

definition dataset_setter_body :: "env \<Rightarrow> dataset option \<Rightarrow> session \<Rightarrow> event list \<Rightarrow> unit outcome" where
  "dataset_setter_body e d s tr =
     (let tr1 = (case d of Some x \<Rightarrow> tr @ [DatasetReload x] | None \<Rightarrow> tr);
          s1 = s\<lparr>state := (state s)\<lparr>dataset := d\<rparr>\<rparr>;
          s2 = s1\<lparr>state := (state s1)\<lparr>view := None\<rparr>\<rparr>;
          s3 = s2\<lparr>state := (state s2)\<lparr>selected := []\<rparr>\<rparr>;
          s4 = s3\<lparr>state := (state s3)\<lparr>selected_objects := []\<rparr>\<rparr>;
          s5 = s4\<lparr>state := (state s4)\<lparr>filters := Map.empty\<rparr>\<rparr>
      in Session_auto_show e s5 tr1)"

definition Session_dataset_setter :: "env \<Rightarrow> dataset option \<Rightarrow> session \<Rightarrow> event list \<Rightarrow> unit outcome" where
  "Session_dataset_setter e d = update_state (dataset_setter_body e d) e"

text \<open>\<^verbatim>\<open>Session.clear_dataset\<close>.\<close>

definition clear_dataset_body :: "session \<Rightarrow> event list \<Rightarrow> unit outcome" where
  "clear_dataset_body s tr = (Inr (), s\<lparr>state := (state s)\<lparr>dataset := None\<rparr>\<rparr>, tr)"

definition Session_clear_dataset :: "env \<Rightarrow> session \<Rightarrow> event list \<Rightarrow> unit outcome" where
  "Session_clear_dataset e = update_state clear_dataset_body e"

text \<open>The setter of \<^verbatim>\<open>Session.view\<close>.\<close>

definition view_setter_body :: "env \<Rightarrow> dataset_view option \<Rightarrow> session \<Rightarrow> event list \<Rightarrow> unit outcome" where
  "view_setter_body e v s tr =
     (let s1 = s\<lparr>state := (state s)\<lparr>view := v\<rparr>\<rparr>;
          (s2, tr1) = (case v of
                         Some x \<Rightarrow>
                           (s1\<lparr>state := (state s1)\<lparr>dataset := Some (view_dataset x)\<rparr>\<rparr>,
                            tr @ [DatasetReload (view_dataset x)])
                       | None \<Rightarrow> (s1, tr));
          s3 = s2\<lparr>state := (state s2)\<lparr>selected := []\<rparr>\<rparr>;
          s4 = s3\<lparr>state := (state s3)\<lparr>selected_objects := []\<rparr>\<rparr>;
          s5 = s4\<lparr>state := (state s4)\<lparr>filters := Map.empty\<rparr>\<rparr>
      in Session_auto_show e s5 tr1)"

definition Session_view_setter :: "env \<Rightarrow> dataset_view option \<Rightarrow> session \<Rightarrow> event list \<Rightarrow> unit outcome" where
  "Session_view_setter e v = update_state (view_setter_body e v) e"

text \<open>\<^verbatim>\<open>Session.clear_view\<close>.\<close>

definition clear_view_body :: "env \<Rightarrow> session \<Rightarrow> event list \<Rightarrow> unit outcome" where
  "clear_view_body e s tr = Session_auto_show e (s\<lparr>state := (state s)\<lparr>view := None\<rparr>\<rparr>) tr"

definition Session_clear_view :: "env \<Rightarrow> session \<Rightarrow> event list \<Rightarrow> unit outcome" where
  "Session_clear_view e = update_state (clear_view_body e) e"

text \<open>\<^verbatim>\<open>Session.refresh\<close>.\<close>

definition refresh_body :: "env \<Rightarrow> session \<Rightarrow> event list \<Rightarrow> unit outcome" where
  "refresh_body e s tr = Session_auto_show e s tr"

definition Session_refresh :: "env \<Rightarrow> session \<Rightarrow> event list \<Rightarrow> unit outcome" where
  "Session_refresh e = update_state (refresh_body e) e"

text \<open>The property \<^verbatim>\<open>Session.url\<close>.\<close>

definition Session_url :: "session \<Rightarrow> url" where
  "Session_url s =
     (if s_context s = COLAB then ColabProxyUrl (s_port s) else LocalhostUrl (s_port s))"

text \<open>
  \<^verbatim>\<open>Session.open\<close>. The last line reads \<^verbatim>\<open>self._app_service\<close>, which only a
  desktop construction outside notebooks assigns.
\<close>

definition Session_open :: "session \<Rightarrow> event list \<Rightarrow> unit outcome" where
  "Session_open s tr =
     (if s_remote s then (Inl (ValueError RemoteCannotLaunch), s, tr)
      else if s_context s \<noteq> NONE then (Inl (ValueError NotebookCannotLaunch), s, tr)
      else if \<not> s_desktop s then (Inr (), s, tr @ [WebbrowserOpen (Session_url s)])
      else if \<not> s_app_service s then (Inl AttributeError, s, tr)
      else (Inr (), s, tr @ [AppServiceStart (s_port s)]))"

text \<open>\<^verbatim>\<open>Session.close\<close>.\<close>

definition Session_close :: "session \<Rightarrow> event list \<Rightarrow> unit outcome" where
  "Session_close s tr =
     (if s_remote s then (Inr (), s, tr)
      else
        (let s1 = s\<lparr>state := (state s)\<lparr>close := True\<rparr>\<rparr>
         in (Inr (), s1, Session_update_state s1 tr)))"

section \<open>The module globals, construction and destruction\<close>

text \<open>
  A \<^verbatim>\<open>fos.ServerService(port, do_not_track=...)\<close> object; creating it starts the
  server process, \<^verbatim>\<open>stop()\<close> ends it.
\<close>

datatype server_service = ServerService nat bool

text \<open>
  The globals \<^verbatim>\<open>_session\<close>, \<^verbatim>\<open>_server_services\<close> (a dict keyed by port) and
  \<^verbatim>\<open>_subscribed_sessions\<close> (a \<^verbatim>\<open>defaultdict(set)\<close> keyed by port), the session
  objects by identity, the identity the next new object gets, and the trace.
  The subscriber sets hold the session objects themselves, so a subscribed session stays
  referenced; \<^verbatim>\<open>__del__\<close> is a step of its own here (\<open>Session_del\<close>), taken only when
  it is called.
\<close>

record world =
  g_session :: "nat option"
  g_server_services :: "nat \<rightharpoonup> server_service"
  g_subscribed_sessions :: "nat \<Rightarrow> nat set"
  heap :: "nat \<rightharpoonup> session"
  next_id :: nat
  trace :: "event list"

text \<open>The arguments of \<^verbatim>\<open>Session(...)\<close> and of \<^verbatim>\<open>launch_app(...)\<close>.\<close>

record session_args =
  a_dataset :: "dataset option"
  a_view :: "dataset_view option"
  a_port :: nat
  a_remote :: bool
  a_desktop :: "bool option"
  a_auto :: bool
  a_height :: int

text \<open>
  Modelled from the spec: the constructor of \<^verbatim>\<open>fiftyone.core.state.StateDescription\<close>,
  which \<^verbatim>\<open>HasClient.__init__\<close> calls, is not part of the source file; the spec says the
  state is "created at Session construction with empty defaults".
\<close>

definition StateDescription_new :: state_description where
  "StateDescription_new =
     \<lparr>datasets = [], dataset = None, view = None, selected = [], selected_objects = [],
      filters = Map.empty, close = False\<rparr>"

text \<open>
  Lines 246 to 253 of \<^verbatim>\<open>Session.__init__\<close>: create the server service of the port
  unless the port has one, then add the session to the subscribers of the port.
\<close>

definition acquire :: "env \<Rightarrow> nat \<Rightarrow> nat \<Rightarrow> world \<Rightarrow> world" where
  "acquire e port self w =
     (let w1 = (if g_server_services w port = None
                then w\<lparr>g_server_services :=
                         (g_server_services w)(port \<mapsto> ServerService port (config_do_not_track e)),
                       trace := trace w @ [ServerServiceNew port (config_do_not_track e)]\<rparr>
                else w)
      in w1\<lparr>g_subscribed_sessions :=
               (g_subscribed_sessions w1)(port := insert self (g_subscribed_sessions w1 port))\<rparr>)"

text \<open>
  Lines 314 to 321 of \<^verbatim>\<open>Session.__del__\<close>: discard the session from the subscribers
  of its port; when none is left, pop the server service of the port, if any, and stop it.
\<close>

definition release :: "nat \<Rightarrow> nat \<Rightarrow> world \<Rightarrow> world" where
  "release port self w =
     (let w1 = w\<lparr>g_subscribed_sessions :=
                    (g_subscribed_sessions w)(port := g_subscribed_sessions w port - {self})\<rparr>
      in if g_subscribed_sessions w1 port = {}
         then (case g_server_services w1 port of
                 Some service \<Rightarrow>
                   w1\<lparr>g_server_services := (g_server_services w1)(port := None),
                      trace := trace w1 @ [ServerServiceStop port]\<rparr>
               | None \<Rightarrow> w1)
         else w1)"

text \<open>
  \<^verbatim>\<open>Session.__init__\<close>, for the object \<open>self\<close>. It returns the object as it is when
  the constructor returns or raises. \<^verbatim>\<open>_desktop\<close> and \<^verbatim>\<open>_app_service\<close> are assigned
  late and not read before; the record holds \<open>False\<close> for them until then.
\<close>

definition Session_init :: "env \<Rightarrow> nat \<Rightarrow> session_args \<Rightarrow> world \<Rightarrow> (error + unit) \<times> session \<times> world" where
  "Session_init e self a w =
     (let s0 = \<lparr>s_context = get_context e, s_port = a_port a, s_remote = a_remote a,
                s_disable_wait_warning = False, s_auto = a_auto a, s_height = a_height a,
                s_desktop = False, s_app_service = False, state = StateDescription_new\<rparr>;
          w1 = acquire e (a_port a) self w;
          (r, s1, tr1) =
            (case a_view a of
               Some v \<Rightarrow> Session_view_setter e (Some v) s0 (trace w1)
             | None \<Rightarrow>
                 (case a_dataset a of
                    Some d \<Rightarrow> Session_dataset_setter e (Some d) s0 (trace w1)
                  | None \<Rightarrow> (Inr (), s0, trace w1)));
          w2 = w1\<lparr>trace := tr1\<rparr>
      in case r of
           Inl err \<Rightarrow> (Inl err, s1, w2)
         | Inr _ \<Rightarrow>
             (let desktop = (case a_desktop a of
                               None \<Rightarrow> (if s_context s1 = NONE then config_desktop_app e else False)
                             | Some b \<Rightarrow> b);
                  s2 = s1\<lparr>s_desktop := desktop\<rparr>
              in if s_remote s2 \<and> s_context s2 \<noteq> NONE
                 then (Inl (ValueError RemoteFromNotebook), s2, w2)
                 else if s_remote s2 then (Inr (), s2, w2)
                 else if s_context s2 = NONE then
                   (if s_desktop s2 then
                      (if \<not> desktop_importable e \<and> \<not> DEV_INSTALL e
                       then (Inl (ValueError DesktopPackageMissing), s2, w2)
                       else (Inr (), s2\<lparr>s_app_service := True\<rparr>,
                             w2\<lparr>trace := trace w2 @ [AppServiceNew (a_port a)]\<rparr>))
                    else (case Session_open s2 (trace w2) of
                            (r3, s3, tr3) \<Rightarrow> (r3, s3, w2\<lparr>trace := tr3\<rparr>)))
                 else if s_desktop s2 then (Inl (ValueError DesktopFromNotebook), s2, w2)
                 else (Inr (), s2, w2)))"

text \<open>
  \<^verbatim>\<open>Session(...)\<close>: a new object is made and initialised. The result is its identity,
  or the exception of \<^verbatim>\<open>__init__\<close>; the object itself is returned too, for its
  attributes.
\<close>

definition Session_new :: "env \<Rightarrow> session_args \<Rightarrow> world \<Rightarrow> (error + nat) \<times> session \<times> world" where
  "Session_new e a w =
     (let self = next_id w
      in case Session_init e self a (w\<lparr>next_id := Suc self\<rparr>) of
           (r, s, w1) \<Rightarrow>
             ((case r of Inl err \<Rightarrow> Inl err | Inr _ \<Rightarrow> Inr self),
              s, w1\<lparr>heap := (heap w1)(self \<mapsto> s)\<rparr>))"

text \<open>
  \<^verbatim>\<open>Session.__del__\<close> for the object \<open>self\<close>; \<open>young\<close> says whether
  \<^verbatim>\<open>self._get_time() - self._start_time < 2.5\<close>. Nothing in the \<^verbatim>\<open>try\<close> block raises
  here.
\<close>

definition Session_del :: "bool \<Rightarrow> nat \<Rightarrow> world \<Rightarrow> world" where
  "Session_del young self w =
     (case heap w self of
        None \<Rightarrow> w
      | Some s \<Rightarrow>
          (let w1 = (if \<not> s_disable_wait_warning s \<and> young
                     then w\<lparr>trace := trace w @ [PrintWaitInstructions]\<rparr>
                     else w)
           in release (s_port s) self w1))"



text \<open>The module as imported: no session, no service, no subscriber.\<close>

definition world0 :: world where
  "world0 =
     \<lparr>g_session = None, g_server_services = Map.empty, g_subscribed_sessions = (\<lambda>port. {}),
      heap = Map.empty, next_id = 0, trace = []\<rparr>"

section \<open>Calls and concrete inputs\<close>

text \<open>A call of one of the two setters, and a sequence of such calls on one session.\<close>

datatype set_call = SetDataset "dataset option" | SetView "dataset_view option"

fun do_set_call :: "env \<Rightarrow> set_call \<Rightarrow> session \<Rightarrow> event list \<Rightarrow> unit outcome" where
  "do_set_call e (SetDataset d) s tr = Session_dataset_setter e d s tr"
| "do_set_call e (SetView v) s tr = Session_view_setter e v s tr"

text \<open>
  Each call is made in the surroundings of its moment. The session and the trace go on
  as the call left them, whether it returned or raised.
\<close>

fun do_set_calls :: "(env \<times> set_call) list \<Rightarrow> session \<Rightarrow> event list \<Rightarrow> session \<times> event list" where
  "do_set_calls [] s tr = (s, tr)"
| "do_set_calls ((e, c) # cs) s tr =
     (case do_set_call e c s tr of (r, s1, tr1) \<Rightarrow> do_set_calls cs s1 tr1)"

text \<open>The methods that write the state.\<close>

datatype mutator =
    MShow int
  | MSetDataset "dataset option"
  | MClearDataset
  | MSetView "dataset_view option"
  | MClearView
  | MRefresh
  | MClose

fun mutate :: "env \<Rightarrow> mutator \<Rightarrow> session \<Rightarrow> event list \<Rightarrow> unit outcome" where
  "mutate e (MShow height) s tr = Session_show e height s tr"
| "mutate e (MSetDataset d) s tr = Session_dataset_setter e d s tr"
| "mutate e MClearDataset s tr = Session_clear_dataset e s tr"
| "mutate e (MSetView v) s tr = Session_view_setter e v s tr"
| "mutate e MClearView s tr = Session_clear_view e s tr"
| "mutate e MRefresh s tr = Session_refresh e s tr"
| "mutate e MClose s tr = Session_close s tr"

text \<open>Concrete surroundings, sessions and arguments.\<close>

definition env_of :: "fo_context \<Rightarrow> env" where
  "env_of c =
     \<lparr>get_context = c, list_datasets = [''quickstart''], config_desktop_app = False,
      config_do_not_track = False, DEV_INSTALL = False, desktop_importable = False\<rparr>"

definition quickstart :: dataset where
  "quickstart = Dataset ''quickstart''"

definition session_of :: "fo_context \<Rightarrow> int \<Rightarrow> state_description \<Rightarrow> session" where
  "session_of c h st =
     \<lparr>s_context = c, s_port = 5151, s_remote = False, s_disable_wait_warning = False,
      s_auto = True, s_height = h, s_desktop = False, s_app_service = False, state = st\<rparr>"

definition busy_state :: state_description where
  "busy_state =
     \<lparr>datasets = [''quickstart''], dataset = Some quickstart,
      view = Some (DatasetView quickstart [''Limit'']), selected = [''sample1''],
      selected_objects = [], filters = [''label'' \<mapsto> ''cat''], close = False\<rparr>"

definition args_of :: "nat \<Rightarrow> bool \<Rightarrow> bool option \<Rightarrow> session_args" where
  "args_of port remote desktop =
     \<lparr>a_dataset = None, a_view = None, a_port = port, a_remote = remote,
      a_desktop = desktop, a_auto = True, a_height = 800\<rparr>"

text \<open>
  Three constructions on port 5151 in a plain process: a local session, a remote one,
  and a desktop one (which raises, the desktop package being absent).
\<close>

definition args3 :: "session_args list" where
  "args3 = [args_of 5151 False None, args_of 5151 True None, args_of 5151 False (Some True)]"

text \<open>The events that start or stop a server process.\<close>

fun service_event :: "event \<Rightarrow> bool" where
  "service_event (ServerServiceNew port track) = True"
| "service_event (ServerServiceStop port) = True"
| "service_event ev = False"

text \<open>What a call of a setter leaves behind.\<close>

definition set_call_post :: "set_call \<Rightarrow> state_description \<Rightarrow> bool" where
  "set_call_post c st \<longleftrightarrow>
     selected st = [] \<and> selected_objects st = [] \<and> filters st = Map.empty
     \<and> (case c of
          SetDataset d \<Rightarrow> dataset st = d \<and> view st = None
        | SetView None \<Rightarrow> view st = None
        | SetView (Some v) \<Rightarrow> view st = Some v \<and> dataset st = Some (view_dataset v))"

definition calls3 :: "(env \<times> set_call) list" where
  "calls3 =
     [(env_of IPYTHON, SetDataset (Some quickstart)),
      (env_of IPYTHON, SetView (Some (DatasetView quickstart [''Limit'']))),
      (env_of NONE, SetDataset None)]"

text \<open>
  The value that \<^verbatim>\<open>__init__\<close> assigns to \<^verbatim>\<open>_desktop\<close> (lines 261 to 267), and how
  the constructor ends (lines 271 to 295), as functions of the surroundings and the
  arguments alone.
\<close>

definition resolved_desktop :: "env \<Rightarrow> session_args \<Rightarrow> bool" where
  "resolved_desktop e a =
     (case a_desktop a of
        None \<Rightarrow> (if get_context e = NONE then config_desktop_app e else False)
      | Some b \<Rightarrow> b)"

definition init_result :: "env \<Rightarrow> session_args \<Rightarrow> error + unit" where
  "init_result e a =
     (if a_remote a \<and> get_context e \<noteq> NONE then Inl (ValueError RemoteFromNotebook)
      else if a_remote a then Inr ()
      else if get_context e = NONE then
        (if resolved_desktop e a \<and> \<not> desktop_importable e \<and> \<not> DEV_INSTALL e
         then Inl (ValueError DesktopPackageMissing) else Inr ())
      else if resolved_desktop e a then Inl (ValueError DesktopFromNotebook)
      else Inr ())"



section \<open>Facts about the methods\<close>

lemmas session_defs =
  Session_show_def update_state_def show_body_def display_def display'_def
  show_height_def Session_update_state_def Session_auto_show_def
  dataset_setter_body_def Session_dataset_setter_def
  view_setter_body_def Session_view_setter_def
  clear_dataset_body_def Session_clear_dataset_def
  clear_view_body_def Session_clear_view_def
  refresh_body_def Session_refresh_def Session_close_def

lemma show_session:
  "fst (snd (Session_show e h s tr)) = s\<lparr>state := (state s)\<lparr>datasets := list_datasets e\<rparr>\<rparr>"
  by (cases "get_context e"; cases "Session_dataset s")
     (auto simp: session_defs Let_def split: prod.splits sum.splits)

lemma auto_show_session:
  "fst (snd (Session_auto_show e s tr)) =
     (if s_context s \<noteq> NONE \<and> s_auto s
      then s\<lparr>state := (state s)\<lparr>datasets := list_datasets e\<rparr>\<rparr> else s)"
  by (simp add: Session_auto_show_def show_session)

lemma update_state_session:
  "fst (snd (update_state func e s tr)) =
     (case func s tr of
        (Inl err, s1, tr1) \<Rightarrow> s1
      | (Inr x, s1, tr1) \<Rightarrow> s1\<lparr>state := (state s1)\<lparr>datasets := list_datasets e\<rparr>\<rparr>)"
  by (auto simp: update_state_def Let_def split: prod.splits sum.splits)

lemma auto_show_cases:
  obtains r tr1 where "Session_auto_show e s tr = (r, s, tr1)"
  | r tr1 where "Session_auto_show e s tr = (r, s\<lparr>state := (state s)\<lparr>datasets := list_datasets e\<rparr>\<rparr>, tr1)"
proof (cases "Session_auto_show e s tr")
  case (fields r s1 tr1)
  then show ?thesis using auto_show_session [of e s tr] that by (auto split: if_splits)
qed

lemma dataset_setter_state:
  "\<exists>ds. state (fst (snd (Session_dataset_setter e d s tr))) =
     (state s)\<lparr>datasets := ds, dataset := d, view := None, selected := [],
       selected_objects := [], filters := Map.empty\<rparr>"
proof -
  let ?m = "s\<lparr>state := (state s)\<lparr>dataset := d, view := None, selected := [],
       selected_objects := [], filters := Map.empty\<rparr>\<rparr>"
  let ?tr = "(case d of Some x \<Rightarrow> tr @ [DatasetReload x] | None \<Rightarrow> tr)"
  have body: "dataset_setter_body e d s tr = Session_auto_show e ?m ?tr"
    by (simp add: dataset_setter_body_def Let_def)
  show ?thesis
  proof (cases rule: auto_show_cases [of e ?m ?tr])
    case (1 r tr1)
    then show ?thesis
      by (cases r) (auto simp: Session_dataset_setter_def update_state_session body
           intro: exI[of _ "list_datasets e"] exI[of _ "datasets (state s)"])
  next
    case (2 r tr1)
    then show ?thesis
      by (cases r) (auto simp: Session_dataset_setter_def update_state_session body
           intro: exI[of _ "list_datasets e"] exI[of _ "datasets (state s)"])
  qed
qed

lemma view_setter_state:
  "\<exists>ds. state (fst (snd (Session_view_setter e v s tr))) =
     (state s)\<lparr>datasets := ds, view := v,
       dataset := (case v of Some x \<Rightarrow> Some (view_dataset x) | None \<Rightarrow> dataset (state s)),
       selected := [], selected_objects := [], filters := Map.empty\<rparr>"
proof -
  let ?m = "s\<lparr>state := (state s)\<lparr>view := v,
       dataset := (case v of Some x \<Rightarrow> Some (view_dataset x) | None \<Rightarrow> dataset (state s)),
       selected := [], selected_objects := [], filters := Map.empty\<rparr>\<rparr>"
  let ?tr = "(case v of Some x \<Rightarrow> tr @ [DatasetReload (view_dataset x)] | None \<Rightarrow> tr)"
  have body: "view_setter_body e v s tr = Session_auto_show e ?m ?tr"
    by (cases v) (simp_all add: view_setter_body_def Let_def)
  show ?thesis
  proof (cases rule: auto_show_cases [of e ?m ?tr])
    case (1 r tr1)
    then show ?thesis
      by (cases r) (auto simp: Session_view_setter_def update_state_session body
           intro: exI[of _ "list_datasets e"] exI[of _ "datasets (state s)"])
  next
    case (2 r tr1)
    then show ?thesis
      by (cases r) (auto simp: Session_view_setter_def update_state_session body
           intro: exI[of _ "list_datasets e"] exI[of _ "datasets (state s)"])
  qed
qed

lemma do_set_call_post:
  "set_call_post c (state (fst (snd (do_set_call e c s tr))))"
proof (cases c)
  case (SetDataset d)
  then show ?thesis using dataset_setter_state [of e d s tr]
    by (auto simp: set_call_post_def)
next
  case (SetView v)
  then show ?thesis using view_setter_state [of e v s tr]
    by (cases v) (auto simp: set_call_post_def)
qed

lemma do_set_calls_snoc:
  "do_set_calls (cs @ [(e, c)]) s tr =
     (case do_set_calls cs s tr of
        (s1, tr1) \<Rightarrow> (fst (snd (do_set_call e c s1 tr1)), snd (snd (do_set_call e c s1 tr1))))"
  by (induction cs arbitrary: s tr) (auto split: prod.splits)

lemma do_set_calls_last:
  assumes "cs \<noteq> []"
  shows "set_call_post (snd (last cs)) (state (fst (do_set_calls cs s tr)))"
proof -
  obtain cs' e c where cs: "cs = cs' @ [(e, c)]"
    using assms by (cases cs rule: rev_cases) auto
  show ?thesis
    using do_set_call_post by (simp add: cs do_set_calls_snoc split: prod.splits)
qed

lemma auto_show_eq:
  assumes "s_context s = get_context e"
  shows "Session_auto_show e s tr =
     (if s_context s \<noteq> NONE \<and> s_auto s
      then (Inr (), s\<lparr>state := (state s)\<lparr>datasets := list_datasets e\<rparr>\<rparr>,
            tr @ (case Session_dataset s of Some x \<Rightarrow> [DocReload x] | None \<Rightarrow> [])
               @ [ListDatasets,
                  (if s_context s = COLAB then DisplayColab else DisplayIpython) (s_port s)
                    (if s_height s \<noteq> 800 then s_height s else 800),
                  ListDatasets,
                  Push (s_port s) ((state s)\<lparr>datasets := list_datasets e\<rparr>)])
      else (Inr (), s, tr))"
  using assms
  by (cases "get_context e"; cases "Session_dataset s")
     (auto simp: session_defs Let_def)

lemma auto_show_result:
  "Session_auto_show e s tr =
     (if s_context s \<noteq> NONE \<and> s_auto s
      then (if get_context e = NONE
            then (Inl (KeyError NONE), s\<lparr>state := (state s)\<lparr>datasets := list_datasets e\<rparr>\<rparr>,
                  tr @ (case Session_dataset s of Some x \<Rightarrow> [DocReload x] | None \<Rightarrow> [])
                     @ [ListDatasets])
            else (Inr (), s\<lparr>state := (state s)\<lparr>datasets := list_datasets e\<rparr>\<rparr>,
                  tr @ (case Session_dataset s of Some x \<Rightarrow> [DocReload x] | None \<Rightarrow> [])
                     @ [ListDatasets,
                        (if get_context e = COLAB then DisplayColab else DisplayIpython) (s_port s)
                          (if s_height s \<noteq> 800 then s_height s else 800),
                        ListDatasets,
                        Push (s_port s) ((state s)\<lparr>datasets := list_datasets e\<rparr>)]))
      else (Inr (), s, tr))"
  by (cases "get_context e"; cases "Session_dataset s")
     (auto simp: session_defs Let_def)

lemma update_state_returns:
  assumes "update_state func e s tr = (Inr x, s', tr')"
      and "\<And>r s1 tr1. func s tr = (r, s1, tr1) \<Longrightarrow> s_port s1 = s_port s \<and> (\<exists>new. tr1 = tr @ new)"
  shows "datasets (state s') = list_datasets e
         \<and> (\<exists>pre. tr' = tr @ pre @ [ListDatasets, Push (s_port s) (state s')])"
proof (cases "func s tr")
  case (fields r s1 tr1)
  with assms(2) obtain new where "s_port s1 = s_port s" "tr1 = tr @ new" by blast
  with fields assms(1) show ?thesis
    by (cases r) (auto simp: update_state_def Session_update_state_def Let_def)
qed

lemma show_extends:
  "Session_show e h s tr = (r, s1, tr1) \<Longrightarrow> s_port s1 = s_port s \<and> (\<exists>new. tr1 = tr @ new)"
  by (cases "get_context e"; cases "Session_dataset s")
     (auto simp: session_defs Let_def split: if_splits)

lemma auto_show_extends:
  "Session_auto_show e s tr = (r, s1, tr1) \<Longrightarrow> s_port s1 = s_port s \<and> (\<exists>new. tr1 = tr @ new)"
  using show_extends [of e 800 s tr r s1 tr1]
  by (auto simp: Session_auto_show_def split: if_splits)

lemma show_body_extends:
  "show_body e h s tr = (r, s1, tr1) \<Longrightarrow> s_port s1 = s_port s \<and> (\<exists>new. tr1 = tr @ new)"
  by (cases "get_context e"; cases "Session_dataset s")
     (auto simp: show_body_def display_def display'_def Let_def split: if_splits)

lemma dataset_setter_body_extends:
  "dataset_setter_body e d s tr = (r, s1, tr1) \<Longrightarrow> s_port s1 = s_port s \<and> (\<exists>new. tr1 = tr @ new)"
  by (cases d) (auto simp: dataset_setter_body_def Let_def dest!: auto_show_extends)

lemma view_setter_body_extends:
  "view_setter_body e v s tr = (r, s1, tr1) \<Longrightarrow> s_port s1 = s_port s \<and> (\<exists>new. tr1 = tr @ new)"
  by (cases v) (auto simp: view_setter_body_def Let_def dest!: auto_show_extends)

lemma clear_dataset_body_extends:
  "clear_dataset_body s tr = (r, s1, tr1) \<Longrightarrow> s_port s1 = s_port s \<and> (\<exists>new. tr1 = tr @ new)"
  by (auto simp: clear_dataset_body_def)

lemma clear_view_body_extends:
  "clear_view_body e s tr = (r, s1, tr1) \<Longrightarrow> s_port s1 = s_port s \<and> (\<exists>new. tr1 = tr @ new)"
  by (auto simp: clear_view_body_def dest!: auto_show_extends)

lemma refresh_body_extends:
  "refresh_body e s tr = (r, s1, tr1) \<Longrightarrow> s_port s1 = s_port s \<and> (\<exists>new. tr1 = tr @ new)"
  by (auto simp: refresh_body_def dest!: auto_show_extends)

section \<open>Facts about construction, destruction and the globals\<close>

lemma dataset_setter_ok:
  assumes "s_context s = get_context e"
  shows "\<exists>st new. Session_dataset_setter e d s tr = (Inr (), s\<lparr>state := st\<rparr>, tr @ new)
                  \<and> filter service_event new = []"
  using assms
  by (cases d)
     (auto simp: Session_dataset_setter_def dataset_setter_body_def update_state_def
        Session_update_state_def auto_show_eq Session_dataset_def Let_def)

lemma view_setter_ok:
  assumes "s_context s = get_context e"
  shows "\<exists>st new. Session_view_setter e v s tr = (Inr (), s\<lparr>state := st\<rparr>, tr @ new)
                  \<and> filter service_event new = []"
  using assms
  by (cases v)
     (auto simp: Session_view_setter_def view_setter_body_def update_state_def
        Session_update_state_def auto_show_eq Session_dataset_def Let_def split: option.splits)

lemma Session_init_eq:
  "\<exists>st new. Session_init e self a w =
     (init_result e a,
      \<lparr>s_context = get_context e, s_port = a_port a, s_remote = a_remote a,
       s_disable_wait_warning = False, s_auto = a_auto a, s_height = a_height a,
       s_desktop = resolved_desktop e a,
       s_app_service = (\<not> a_remote a \<and> get_context e = NONE \<and> resolved_desktop e a
                        \<and> (desktop_importable e \<or> DEV_INSTALL e)),
       state = st\<rparr>,
      (acquire e (a_port a) self w)\<lparr>trace := trace (acquire e (a_port a) self w) @ new\<rparr>)
     \<and> filter service_event new = []"
proof -
  let ?s0 = "\<lparr>s_context = get_context e, s_port = a_port a, s_remote = a_remote a,
                s_disable_wait_warning = False, s_auto = a_auto a, s_height = a_height a,
                s_desktop = False, s_app_service = False, state = StateDescription_new\<rparr>"
  let ?w1 = "acquire e (a_port a) self w"
  let ?step = "(case a_view a of
               Some v \<Rightarrow> Session_view_setter e (Some v) ?s0 (trace ?w1)
             | None \<Rightarrow>
                 (case a_dataset a of
                    Some d \<Rightarrow> Session_dataset_setter e (Some d) ?s0 (trace ?w1)
                  | None \<Rightarrow> (Inr (), ?s0, trace ?w1)))"
  have ctx: "s_context ?s0 = get_context e" by simp
  have "\<exists>st new. ?step = (Inr (), ?s0\<lparr>state := st\<rparr>, trace ?w1 @ new)
                 \<and> filter service_event new = []"
  proof (cases "a_view a")
    case (Some v)
    then show ?thesis using view_setter_ok [OF ctx, of "Some v" "trace ?w1"] by simp
  next
    case None
    show ?thesis
    proof (cases "a_dataset a")
      case (Some d)
      with None show ?thesis using dataset_setter_ok [OF ctx, of "Some d" "trace ?w1"] by simp
    next
      case N2: None
      with None have "?step = (Inr (), ?s0\<lparr>state := StateDescription_new\<rparr>, trace ?w1 @ [])"
        by simp
      moreover have "filter service_event [] = []" by simp
      ultimately show ?thesis by blast
    qed
  qed
  then obtain st new where step: "?step = (Inr (), ?s0\<lparr>state := st\<rparr>, trace ?w1 @ new)"
    and quiet: "filter service_event new = []"
    by blast
  let ?tail = "(if a_remote a then []
                 else if get_context e = NONE then
                   (if resolved_desktop e a then
                      (if \<not> desktop_importable e \<and> \<not> DEV_INSTALL e then []
                       else [AppServiceNew (a_port a)])
                    else [WebbrowserOpen (LocalhostUrl (a_port a))])
                 else [])"
  have "filter service_event (new @ ?tail) = []"
    using quiet by simp
  moreover have "Session_init e self a w =
     (init_result e a,
      \<lparr>s_context = get_context e, s_port = a_port a, s_remote = a_remote a,
       s_disable_wait_warning = False, s_auto = a_auto a, s_height = a_height a,
       s_desktop = resolved_desktop e a,
       s_app_service = (\<not> a_remote a \<and> get_context e = NONE \<and> resolved_desktop e a
                        \<and> (desktop_importable e \<or> DEV_INSTALL e)),
       state = st\<rparr>,
      ?w1\<lparr>trace := trace ?w1 @
         (new @ (if a_remote a then []
                 else if get_context e = NONE then
                   (if resolved_desktop e a then
                      (if \<not> desktop_importable e \<and> \<not> DEV_INSTALL e then []
                       else [AppServiceNew (a_port a)])
                    else [WebbrowserOpen (LocalhostUrl (a_port a))])
                 else []))\<rparr>)"
    unfolding Session_init_def Let_def step
    by (auto simp: init_result_def resolved_desktop_def Session_open_def Session_url_def
          split: option.splits)
  ultimately show ?thesis by blast
qed

lemma Session_new_facts:
  "fst (Session_new e a w) =
     (case init_result e a of Inl err \<Rightarrow> Inl err | Inr u \<Rightarrow> Inr (next_id w))"
  "s_desktop (fst (snd (Session_new e a w))) = resolved_desktop e a"
  "s_remote (fst (snd (Session_new e a w))) = a_remote a"
  "s_port (fst (snd (Session_new e a w))) = a_port a"
  "s_context (fst (snd (Session_new e a w))) = get_context e"
  "g_server_services (snd (snd (Session_new e a w))) =
     g_server_services (acquire e (a_port a) (next_id w) w)"
  "g_subscribed_sessions (snd (snd (Session_new e a w))) =
     g_subscribed_sessions (acquire e (a_port a) (next_id w) w)"
  "g_session (snd (snd (Session_new e a w))) = g_session w"
  "next_id (snd (snd (Session_new e a w))) = Suc (next_id w)"
  "heap (snd (snd (Session_new e a w))) = (heap w)(next_id w \<mapsto> fst (snd (Session_new e a w)))"
  "\<exists>new. trace (snd (snd (Session_new e a w))) =
           trace (acquire e (a_port a) (next_id w) w) @ new
         \<and> filter service_event new = []"
proof -
  obtain st new where init:
    "Session_init e (next_id w) a (w\<lparr>next_id := Suc (next_id w)\<rparr>) =
     (init_result e a,
      \<lparr>s_context = get_context e, s_port = a_port a, s_remote = a_remote a,
       s_disable_wait_warning = False, s_auto = a_auto a, s_height = a_height a,
       s_desktop = resolved_desktop e a,
       s_app_service = (\<not> a_remote a \<and> get_context e = NONE \<and> resolved_desktop e a
                        \<and> (desktop_importable e \<or> DEV_INSTALL e)),
       state = st\<rparr>,
      (acquire e (a_port a) (next_id w) (w\<lparr>next_id := Suc (next_id w)\<rparr>))
         \<lparr>trace := trace (acquire e (a_port a) (next_id w) (w\<lparr>next_id := Suc (next_id w)\<rparr>)) @ new\<rparr>)"
    and quiet: "filter service_event new = []"
    using Session_init_eq [of e "next_id w" a "w\<lparr>next_id := Suc (next_id w)\<rparr>"] by blast
  show "fst (Session_new e a w) =
     (case init_result e a of Inl err \<Rightarrow> Inl err | Inr u \<Rightarrow> Inr (next_id w))"
    by (simp add: Session_new_def Let_def init)
  show "s_desktop (fst (snd (Session_new e a w))) = resolved_desktop e a"
    by (simp add: Session_new_def Let_def init)
  show "s_remote (fst (snd (Session_new e a w))) = a_remote a"
    by (simp add: Session_new_def Let_def init)
  show "s_port (fst (snd (Session_new e a w))) = a_port a"
    by (simp add: Session_new_def Let_def init)
  show "s_context (fst (snd (Session_new e a w))) = get_context e"
    by (simp add: Session_new_def Let_def init)
  show "g_server_services (snd (snd (Session_new e a w))) =
     g_server_services (acquire e (a_port a) (next_id w) w)"
    by (simp add: Session_new_def Let_def init acquire_def)
  show "g_subscribed_sessions (snd (snd (Session_new e a w))) =
     g_subscribed_sessions (acquire e (a_port a) (next_id w) w)"
    by (simp add: Session_new_def Let_def init acquire_def)
  show "g_session (snd (snd (Session_new e a w))) = g_session w"
    by (simp add: Session_new_def Let_def init acquire_def)
  show "next_id (snd (snd (Session_new e a w))) = Suc (next_id w)"
    by (simp add: Session_new_def Let_def init acquire_def)
  show "heap (snd (snd (Session_new e a w))) = (heap w)(next_id w \<mapsto> fst (snd (Session_new e a w)))"
    by (simp add: Session_new_def Let_def init acquire_def)
  show "\<exists>new. trace (snd (snd (Session_new e a w))) =
           trace (acquire e (a_port a) (next_id w) w) @ new
         \<and> filter service_event new = []"
    using quiet by (auto simp: Session_new_def Let_def init acquire_def)
qed

lemma Session_new_port:
  assumes "a_port a = port"
  shows "g_server_services (snd (snd (Session_new e a w))) port =
           (case g_server_services w port of
              None \<Rightarrow> Some (ServerService port (config_do_not_track e))
            | Some service \<Rightarrow> Some service)"
    and "g_subscribed_sessions (snd (snd (Session_new e a w))) port =
           insert (next_id w) (g_subscribed_sessions w port)"
    and "filter service_event (trace (snd (snd (Session_new e a w)))) =
           filter service_event (trace w)
           @ (if g_server_services w port = None
              then [ServerServiceNew port (config_do_not_track e)] else [])"
    and "\<exists>s. heap (snd (snd (Session_new e a w))) (next_id w) = Some s \<and> s_port s = port"
    and "\<forall>i. i \<noteq> next_id w \<longrightarrow> heap (snd (snd (Session_new e a w))) i = heap w i"
proof -
  show "g_server_services (snd (snd (Session_new e a w))) port =
           (case g_server_services w port of
              None \<Rightarrow> Some (ServerService port (config_do_not_track e))
            | Some service \<Rightarrow> Some service)"
    using assms by (auto simp: Session_new_facts acquire_def split: option.splits)
  show "g_subscribed_sessions (snd (snd (Session_new e a w))) port =
           insert (next_id w) (g_subscribed_sessions w port)"
    using assms by (auto simp: Session_new_facts acquire_def)
  obtain new where "trace (snd (snd (Session_new e a w))) =
           trace (acquire e (a_port a) (next_id w) w) @ new"
     and "filter service_event new = []"
    using Session_new_facts(11) [of e a w] by blast
  then show "filter service_event (trace (snd (snd (Session_new e a w)))) =
           filter service_event (trace w)
           @ (if g_server_services w port = None
              then [ServerServiceNew port (config_do_not_track e)] else [])"
    using assms by (auto simp: acquire_def)
  show "\<exists>s. heap (snd (snd (Session_new e a w))) (next_id w) = Some s \<and> s_port s = port"
    using assms by (simp add: Session_new_facts)
  show "\<forall>i. i \<noteq> next_id w \<longrightarrow> heap (snd (snd (Session_new e a w))) i = heap w i"
    by (simp add: Session_new_facts)
qed

lemma fold_Session_new_present:
  assumes "\<forall>a \<in> set args. a_port a = port"
      and "g_server_services w port = Some service"
  shows "next_id (fold (\<lambda>a w. snd (snd (Session_new e a w))) args w) = next_id w + length args
       \<and> g_server_services (fold (\<lambda>a w. snd (snd (Session_new e a w))) args w) port = Some service
       \<and> g_subscribed_sessions (fold (\<lambda>a w. snd (snd (Session_new e a w))) args w) port =
           g_subscribed_sessions w port \<union> {next_id w ..< next_id w + length args}
       \<and> filter service_event (trace (fold (\<lambda>a w. snd (snd (Session_new e a w))) args w)) =
           filter service_event (trace w)
       \<and> (\<forall>i. next_id w \<le> i \<and> i < next_id w + length args \<longrightarrow>
             (\<exists>s. heap (fold (\<lambda>a w. snd (snd (Session_new e a w))) args w) i = Some s
                  \<and> s_port s = port))
       \<and> (\<forall>i. i < next_id w \<longrightarrow>
             heap (fold (\<lambda>a w. snd (snd (Session_new e a w))) args w) i = heap w i)"
  using assms
proof (induction args arbitrary: w)
  case Nil
  then show ?case by auto
next
  case (Cons a args)
  let ?w1 = "snd (snd (Session_new e a w))"
  let ?w2 = "fold (\<lambda>a w. snd (snd (Session_new e a w))) args ?w1"
  have pa: "a_port a = port" using Cons.prems(1) by simp
  have n1: "next_id ?w1 = Suc (next_id w)" by (simp add: Session_new_facts)
  have s1: "g_server_services ?w1 port = Some service"
    using Session_new_port(1) [OF pa, where e = e and w = w] Cons.prems(2) by simp
  have u1: "g_subscribed_sessions ?w1 port = insert (next_id w) (g_subscribed_sessions w port)"
    using Session_new_port(2) [OF pa, where e = e and w = w] .
  have t1: "filter service_event (trace ?w1) = filter service_event (trace w)"
    using Session_new_port(3) [OF pa, where e = e and w = w] Cons.prems(2) by simp
  obtain s where h1: "heap ?w1 (next_id w) = Some s" "s_port s = port"
    using Session_new_port(4) [OF pa, where e = e and w = w] by blast
  have h1': "\<forall>i. i \<noteq> next_id w \<longrightarrow> heap ?w1 i = heap w i"
    using Session_new_port(5) [OF pa, where e = e and w = w] .
  have rest: "\<forall>a \<in> set args. a_port a = port" using Cons.prems(1) by simp
  note IH = Cons.IH [OF rest s1]
  have A: "next_id ?w2 = next_id w + length (a # args)" using IH n1 by simp
  have B: "g_server_services ?w2 port = Some service" using IH by simp
  have C: "g_subscribed_sessions ?w2 port =
           g_subscribed_sessions w port \<union> {next_id w ..< next_id w + length (a # args)}"
    using IH n1 u1 by auto
  have D: "filter service_event (trace ?w2) = filter service_event (trace w)"
    using IH t1 by simp
  have E: "\<exists>s. heap ?w2 i = Some s \<and> s_port s = port"
    if "next_id w \<le> i \<and> i < next_id w + length (a # args)" for i
  proof (cases "i = next_id w")
    case True
    then have "heap ?w2 i = heap ?w1 i" using IH n1 by simp
    then show ?thesis using True h1 by simp
  next
    case False
    then have "next_id ?w1 \<le> i \<and> i < next_id ?w1 + length args"
      using that n1 by simp
    then show ?thesis using IH by blast
  qed
  have F: "heap ?w2 i = heap w i" if "i < next_id w" for i
  proof -
    have "heap ?w2 i = heap ?w1 i" using IH n1 that by simp
    then show ?thesis using h1' that by simp
  qed
  from A B C D E F show ?case by simp
qed

lemma fold_Session_new_absent:
  assumes "\<forall>a \<in> set args. a_port a = port"
      and "g_server_services w port = None" and "args \<noteq> []"
  shows "next_id (fold (\<lambda>a w. snd (snd (Session_new e a w))) args w) = next_id w + length args
       \<and> g_server_services (fold (\<lambda>a w. snd (snd (Session_new e a w))) args w) port =
           Some (ServerService port (config_do_not_track e))
       \<and> g_subscribed_sessions (fold (\<lambda>a w. snd (snd (Session_new e a w))) args w) port =
           g_subscribed_sessions w port \<union> {next_id w ..< next_id w + length args}
       \<and> filter service_event (trace (fold (\<lambda>a w. snd (snd (Session_new e a w))) args w)) =
           filter service_event (trace w) @ [ServerServiceNew port (config_do_not_track e)]
       \<and> (\<forall>i. next_id w \<le> i \<and> i < next_id w + length args \<longrightarrow>
             (\<exists>s. heap (fold (\<lambda>a w. snd (snd (Session_new e a w))) args w) i = Some s
                  \<and> s_port s = port))"
proof (cases args)
  case Nil
  with assms show ?thesis by simp
next
  case (Cons a rest)
  let ?w1 = "snd (snd (Session_new e a w))"
  let ?w2 = "fold (\<lambda>a w. snd (snd (Session_new e a w))) rest ?w1"
  have pa: "a_port a = port" using assms(1) Cons by simp
  have n1: "next_id ?w1 = Suc (next_id w)" by (simp add: Session_new_facts)
  have s1: "g_server_services ?w1 port = Some (ServerService port (config_do_not_track e))"
    using Session_new_port(1) [OF pa, where e = e and w = w] assms(2) by simp
  have u1: "g_subscribed_sessions ?w1 port = insert (next_id w) (g_subscribed_sessions w port)"
    using Session_new_port(2) [OF pa, where e = e and w = w] .
  have t1: "filter service_event (trace ?w1) =
              filter service_event (trace w) @ [ServerServiceNew port (config_do_not_track e)]"
    using Session_new_port(3) [OF pa, where e = e and w = w] assms(2) by simp
  obtain s where h1: "heap ?w1 (next_id w) = Some s" "s_port s = port"
    using Session_new_port(4) [OF pa, where e = e and w = w] by blast
  have rest: "\<forall>a \<in> set rest. a_port a = port" using assms(1) Cons by simp
  note P = fold_Session_new_present [OF rest s1, of e]
  have A: "next_id ?w2 = next_id w + length args" using P n1 Cons by simp
  have B: "g_server_services ?w2 port = Some (ServerService port (config_do_not_track e))"
    using P by simp
  have C: "g_subscribed_sessions ?w2 port =
           g_subscribed_sessions w port \<union> {next_id w ..< next_id w + length args}"
    using P n1 u1 Cons by auto
  have D: "filter service_event (trace ?w2) =
           filter service_event (trace w) @ [ServerServiceNew port (config_do_not_track e)]"
    using P t1 by simp
  have E: "\<exists>s. heap ?w2 i = Some s \<and> s_port s = port"
    if "next_id w \<le> i \<and> i < next_id w + length args" for i
  proof (cases "i = next_id w")
    case True
    then have "heap ?w2 i = heap ?w1 i" using P n1 by simp
    then show ?thesis using True h1 by simp
  next
    case False
    then have "next_id ?w1 \<le> i \<and> i < next_id ?w1 + length rest"
      using that n1 Cons by simp
    then show ?thesis using P by blast
  qed
  from A B C D E show ?thesis by (simp add: Cons)
qed

lemma Session_del_port:
  assumes "heap w self = Some s" and "s_port s = port"
  shows "heap (Session_del young self w) = heap w"
    and "g_subscribed_sessions (Session_del young self w) port =
           g_subscribed_sessions w port - {self}"
    and "g_subscribed_sessions w port - {self} \<noteq> {} \<Longrightarrow>
           g_server_services (Session_del young self w) port = g_server_services w port
           \<and> filter service_event (trace (Session_del young self w)) =
               filter service_event (trace w)"
    and "g_subscribed_sessions w port - {self} = {} \<Longrightarrow> g_server_services w port = Some service \<Longrightarrow>
           g_server_services (Session_del young self w) port = None
           \<and> filter service_event (trace (Session_del young self w)) =
               filter service_event (trace w) @ [ServerServiceStop port]"
  using assms
  by (auto simp: Session_del_def release_def Let_def split: option.splits)

lemma fold_Session_del_keeps:
  assumes "\<forall>d \<in> set dels. \<exists>s. heap w (snd d) = Some s \<and> s_port s = port"
      and "g_subscribed_sessions w port - set (map snd dels) \<noteq> {}"
  shows "heap (fold (\<lambda>d w. Session_del (fst d) (snd d) w) dels w) = heap w
       \<and> g_server_services (fold (\<lambda>d w. Session_del (fst d) (snd d) w) dels w) port =
           g_server_services w port
       \<and> filter service_event (trace (fold (\<lambda>d w. Session_del (fst d) (snd d) w) dels w)) =
           filter service_event (trace w)
       \<and> g_subscribed_sessions (fold (\<lambda>d w. Session_del (fst d) (snd d) w) dels w) port =
           g_subscribed_sessions w port - set (map snd dels)"
  using assms
proof (induction dels arbitrary: w)
  case Nil
  then show ?case by simp
next
  case (Cons d dels)
  let ?w1 = "Session_del (fst d) (snd d) w"
  obtain s where hs: "heap w (snd d) = Some s" "s_port s = port"
    using Cons.prems(1) by auto
  have ne: "g_subscribed_sessions w port - {snd d} \<noteq> {}"
    using Cons.prems(2) by auto
  have h1: "heap ?w1 = heap w" using Session_del_port(1) [OF hs] .
  have u1: "g_subscribed_sessions ?w1 port = g_subscribed_sessions w port - {snd d}"
    using Session_del_port(2) [OF hs] .
  have k1: "g_server_services ?w1 port = g_server_services w port"
           "filter service_event (trace ?w1) = filter service_event (trace w)"
    using Session_del_port(3) [OF hs ne] by simp_all
  have p1: "\<forall>d \<in> set dels. \<exists>s. heap ?w1 (snd d) = Some s \<and> s_port s = port"
    using Cons.prems(1) h1 by simp
  have p2: "g_subscribed_sessions ?w1 port - set (map snd dels) \<noteq> {}"
    using Cons.prems(2) u1 by auto
  from Cons.IH [OF p1 p2] show ?case
    using h1 u1 k1 by auto
qed





section \<open>The setters of dataset and view\<close>

text \<open>
  C1. For every session and every sequence of \<^verbatim>\<open>dataset\<close> and \<^verbatim>\<open>view\<close> assignments,
  after each call (the \<open>n\<close>-th, for every \<open>n\<close>) the selected samples, the selected
  objects and the filters are empty; an assignment to \<^verbatim>\<open>dataset\<close> leaves that dataset
  and no view; an assignment of a view leaves the view and its underlying dataset; and
  whenever a view is set, the dataset is the view's.
\<close>

theorem setters_invalidate_selection:
  assumes "0 < n" and "n \<le> length cs"
  shows "case do_set_calls (take n cs) s tr of
           (s', tr') \<Rightarrow>
             selected (state s') = [] \<and> selected_objects (state s') = []
             \<and> filters (state s') = Map.empty
             \<and> (case snd (cs ! (n - 1)) of
                  SetDataset d \<Rightarrow> dataset (state s') = d \<and> view (state s') = None
                | SetView None \<Rightarrow> view (state s') = None
                | SetView (Some v) \<Rightarrow>
                    view (state s') = Some v \<and> dataset (state s') = Some (view_dataset v))
             \<and> (\<forall>v. view (state s') = Some v \<longrightarrow> dataset (state s') = Some (view_dataset v))"
proof -
  have ne: "take n cs \<noteq> []" using assms by auto
  have "last (take n cs) = take n cs ! (length (take n cs) - 1)"
    using ne by (rule last_conv_nth)
  also have "\<dots> = cs ! (n - 1)"
    using assms by (simp add: min_def)
  finally have "last (take n cs) = cs ! (n - 1)" .
  then have "set_call_post (snd (cs ! (n - 1))) (state (fst (do_set_calls (take n cs) s tr)))"
    using do_set_calls_last [OF ne, of s tr] by simp
  then show ?thesis
    by (auto simp: set_call_post_def split: prod.splits set_call.splits option.splits)
qed

theorem setters_invalidate_selection_witness:
  "0 < (2::nat) \<and> 2 \<le> length calls3
   \<and> state (fst (do_set_calls (take 2 calls3) (session_of IPYTHON 800 busy_state) [])) =
       \<lparr>datasets = [''quickstart''], dataset = Some quickstart,
        view = Some (DatasetView quickstart [''Limit'']), selected = [],
        selected_objects = [], filters = Map.empty, close = False\<rparr>"
  using setters_invalidate_selection [of 2 calls3 "session_of IPYTHON 800 busy_state" "[]"]
  by (simp add: calls3_def session_of_def env_of_def busy_state_def quickstart_def session_defs
        Session_dataset_def Let_def numeral_2_eq_2)

section \<open>The order of mutation, auto-show, catalog refresh and push\<close>

text \<open>
  C2, as stated, fails: in a notebook session with \<^verbatim>\<open>auto\<close>, assigning a dataset
  renders the App (the fourth event) before anything has been pushed; the setter's own
  catalog refresh and push are the last two events.
\<close>

theorem auto_show_before_push:
  "snd (snd (Session_dataset_setter (env_of IPYTHON) (Some quickstart)
               (session_of IPYTHON 800 StateDescription_new) [])) =
     [DatasetReload quickstart, DocReload quickstart, ListDatasets,
      DisplayIpython 5151 800, ListDatasets,
      Push 5151 (StateDescription_new\<lparr>datasets := [''quickstart''], dataset := Some quickstart\<rparr>),
      ListDatasets,
      Push 5151 (StateDescription_new\<lparr>datasets := [''quickstart''], dataset := Some quickstart\<rparr>)]"
  by (simp add: session_of_def env_of_def StateDescription_new_def quickstart_def session_defs
        Session_dataset_def Let_def)

text \<open>
  C2, amended. For the two setters and \<^verbatim>\<open>refresh\<close>, on every session and in every
  surroundings: the mutation is applied first (with the reload of the dataset it sets).
  Then, on a session whose context is a notebook and with \<^verbatim>\<open>auto\<close>, the auto-show
  runs before anything is pushed: a reload, a catalog refresh, the rendering by the
  renderer of the current context, and \<^verbatim>\<open>show\<close>'s own catalog refresh and push. The
  method's own catalog refresh and push come last, and every push is of the final state.
  When the auto-show runs while the current context is \<^verbatim>\<open>_NONE\<close>, the renderer
  lookup raises \<^verbatim>\<open>KeyError\<close> after the mutation, the reload and one catalog refresh,
  and the call pushes nothing.
\<close>

theorem mutation_then_auto_show_then_push:
  fixes e :: env and s :: session and tr :: "event list"
  defines "auto \<equiv> s_context s \<noteq> NONE \<and> s_auto s"
  defines "rendered \<equiv>
     (if get_context e = COLAB then DisplayColab else DisplayIpython) (s_port s)
       (if s_height s \<noteq> 800 then s_height s else 800)"
  defines "outcome \<equiv> \<lambda>st pre current.
     (if auto \<and> get_context e = NONE
      then (Inl (KeyError NONE), s\<lparr>state := st\<rparr>,
            tr @ pre @ (case current of Some x \<Rightarrow> [DocReload x] | None \<Rightarrow> []) @ [ListDatasets])
      else (Inr (), s\<lparr>state := st\<rparr>,
            tr @ pre
               @ (if auto
                  then (case current of Some x \<Rightarrow> [DocReload x] | None \<Rightarrow> [])
                       @ [ListDatasets, rendered, ListDatasets, Push (s_port s) st]
                  else [])
               @ [ListDatasets, Push (s_port s) st]))"
  shows "Session_dataset_setter e d s tr =
           outcome ((state s)\<lparr>datasets := list_datasets e, dataset := d, view := None,
                      selected := [], selected_objects := [], filters := Map.empty\<rparr>)
                   (case d of Some x \<Rightarrow> [DatasetReload x] | None \<Rightarrow> [])
                   d
       \<and> Session_view_setter e v s tr =
           outcome ((state s)\<lparr>datasets := list_datasets e,
                      dataset := (case v of Some x \<Rightarrow> Some (view_dataset x)
                                  | None \<Rightarrow> dataset (state s)),
                      view := v,
                      selected := [], selected_objects := [], filters := Map.empty\<rparr>)
                   (case v of Some x \<Rightarrow> [DatasetReload (view_dataset x)] | None \<Rightarrow> [])
                   (case v of Some x \<Rightarrow> Some (view_dataset x) | None \<Rightarrow> dataset (state s))
       \<and> Session_refresh e s tr =
           outcome ((state s)\<lparr>datasets := list_datasets e\<rparr>) [] (Session_dataset s)"
proof -
  have A: "Session_dataset_setter e d s tr =
           outcome ((state s)\<lparr>datasets := list_datasets e, dataset := d, view := None,
                      selected := [], selected_objects := [], filters := Map.empty\<rparr>)
                   (case d of Some x \<Rightarrow> [DatasetReload x] | None \<Rightarrow> [])
                   d"
    by (cases d)
       (auto simp: Session_dataset_setter_def dataset_setter_body_def update_state_def
          Session_update_state_def auto_show_result Session_dataset_def outcome_def auto_def
          rendered_def Let_def)
  have B: "Session_view_setter e v s tr =
           outcome ((state s)\<lparr>datasets := list_datasets e,
                      dataset := (case v of Some x \<Rightarrow> Some (view_dataset x)
                                  | None \<Rightarrow> dataset (state s)),
                      view := v,
                      selected := [], selected_objects := [], filters := Map.empty\<rparr>)
                   (case v of Some x \<Rightarrow> [DatasetReload (view_dataset x)] | None \<Rightarrow> [])
                   (case v of Some x \<Rightarrow> Some (view_dataset x) | None \<Rightarrow> dataset (state s))"
    by (cases v; cases "dataset (state s)")
       (auto simp: Session_view_setter_def view_setter_body_def update_state_def
          Session_update_state_def auto_show_result Session_dataset_def outcome_def auto_def
          rendered_def Let_def)
  have C: "Session_refresh e s tr =
           outcome ((state s)\<lparr>datasets := list_datasets e\<rparr>) [] (Session_dataset s)"
    by (cases "Session_dataset s")
       (auto simp: Session_refresh_def refresh_body_def update_state_def
          Session_update_state_def auto_show_result outcome_def auto_def rendered_def Let_def)
  from A B C show ?thesis by blast
qed

theorem mutation_then_auto_show_then_push_witness:
  "Session_refresh (env_of COLAB) (session_of IPYTHON 600 busy_state) [] =
       (Inr (), session_of IPYTHON 600 busy_state,
        [DocReload quickstart, ListDatasets, DisplayColab 5151 600, ListDatasets,
         Push 5151 busy_state, ListDatasets, Push 5151 busy_state])
   \<and> Session_dataset_setter (env_of NONE) None (session_of IPYTHON 600 busy_state) [] =
       (Inl (KeyError NONE),
        session_of IPYTHON 600
          (busy_state\<lparr>dataset := None, view := None, selected := [], filters := Map.empty\<rparr>),
        [ListDatasets])
   \<and> Session_dataset_setter (env_of COLAB) None (session_of NONE 600 busy_state) [] =
       (Inr (),
        session_of NONE 600
          (busy_state\<lparr>dataset := None, view := None, selected := [], filters := Map.empty\<rparr>),
        [ListDatasets,
         Push 5151 (busy_state\<lparr>dataset := None, view := None, selected := [],
                      filters := Map.empty\<rparr>)])"
  using mutation_then_auto_show_then_push
          [where e = "env_of COLAB" and s = "session_of IPYTHON 600 busy_state" and tr = "[]"
             and d = None and v = None]
        mutation_then_auto_show_then_push
          [where e = "env_of NONE" and s = "session_of IPYTHON 600 busy_state" and tr = "[]"
             and d = None and v = None]
        mutation_then_auto_show_then_push
          [where e = "env_of COLAB" and s = "session_of NONE 600 busy_state" and tr = "[]"
             and d = None and v = None]
  by (simp add: session_of_def env_of_def busy_state_def Session_dataset_def Let_def)

section \<open>show outside a notebook\<close>

text \<open>
  What \<^verbatim>\<open>show(height)\<close> does on every session whose context is \<^verbatim>\<open>_NONE\<close>: it
  returns normally and logs the warning, and the decorator around it then refreshes the
  catalog and pushes the state.
\<close>

lemma show_outside_notebook:
  assumes "s_context s = NONE"
  shows "Session_show e height s tr =
           (Inr (),
            s\<lparr>state := (state s)\<lparr>datasets := list_datasets e\<rparr>\<rparr>,
            tr @ [LoggerWarn SHOW_IS_NOOP_WARNING, ListDatasets,
                  Push (s_port s) ((state s)\<lparr>datasets := list_datasets e\<rparr>)])"
  using assms by (simp add: session_defs Let_def)

text \<open>
  C4. Outside a notebook \<^verbatim>\<open>show()\<close> is to return without raising, warn, and push
  nothing; the warning of line 351 itself says that the call "is a no-op outside of
  notebooks". The code returns and warns, but the decorator still runs after the early
  return of line 352: on a session in a plain process the call refreshes the catalog
  and pushes the state.
\<close>

theorem show_outside_notebook_pushes:
  "Session_show (env_of NONE) 800 (session_of NONE 800 busy_state) [] =
     (Inr (), session_of NONE 800 busy_state,
      [LoggerWarn SHOW_IS_NOOP_WARNING, ListDatasets, Push 5151 busy_state])"
  by (simp add: session_of_def env_of_def busy_state_def session_defs Let_def)

section \<open>clear_dataset and clear_view\<close>

text \<open>
  What \<^verbatim>\<open>clear_dataset()\<close> does on every session: it sets the dataset of the state to
  \<^verbatim>\<open>None\<close>, refreshes the catalog and pushes, and nothing else.
\<close>

lemma clear_dataset_result:
  "Session_clear_dataset e s tr =
     (Inr (), s\<lparr>state := (state s)\<lparr>datasets := list_datasets e, dataset := None\<rparr>\<rparr>,
      tr @ [ListDatasets,
            Push (s_port s) ((state s)\<lparr>datasets := list_datasets e, dataset := None\<rparr>)])"
  by (simp add: Session_clear_dataset_def clear_dataset_body_def update_state_def
        Session_update_state_def Let_def)

text \<open>
  C7. \<^verbatim>\<open>clear_dataset()\<close> and \<^verbatim>\<open>clear_view()\<close> are to leave the selected samples,
  the selected objects and the filters empty and the dataset and the view consistent,
  then push, then auto-show. On a notebook session with \<^verbatim>\<open>auto\<close>, a view, a selected
  sample and a filter, the code does not: \<^verbatim>\<open>clear_dataset()\<close> leaves the selection,
  the filter and the view in place, so that the property \<^verbatim>\<open>Session.dataset\<close> still
  answers the dataset that was to be cleared, and it renders nothing;
  \<^verbatim>\<open>clear_view()\<close> leaves the selection and the filter in place and renders before
  any push. The assignments \<^verbatim>\<open>session.dataset = None\<close> and
  \<^verbatim>\<open>session.view = None\<close> on the same session clear all of them.
\<close>

theorem clear_methods_keep_selection:
  "Session_clear_dataset (env_of IPYTHON) (session_of IPYTHON 800 busy_state) [] =
     (Inr (),
      session_of IPYTHON 800
        \<lparr>datasets = [''quickstart''], dataset = None,
         view = Some (DatasetView quickstart [''Limit'']), selected = [''sample1''],
         selected_objects = [], filters = [''label'' \<mapsto> ''cat''], close = False\<rparr>,
      [ListDatasets,
       Push 5151
         \<lparr>datasets = [''quickstart''], dataset = None,
          view = Some (DatasetView quickstart [''Limit'']), selected = [''sample1''],
          selected_objects = [], filters = [''label'' \<mapsto> ''cat''], close = False\<rparr>])
   \<and> Session_dataset
       (fst (snd (Session_clear_dataset (env_of IPYTHON) (session_of IPYTHON 800 busy_state) [])))
       = Some quickstart
   \<and> Session_clear_view (env_of IPYTHON) (session_of IPYTHON 800 busy_state) [] =
     (Inr (),
      session_of IPYTHON 800
        \<lparr>datasets = [''quickstart''], dataset = Some quickstart,
         view = None, selected = [''sample1''],
         selected_objects = [], filters = [''label'' \<mapsto> ''cat''], close = False\<rparr>,
      [DocReload quickstart, ListDatasets, DisplayIpython 5151 800, ListDatasets,
       Push 5151
         \<lparr>datasets = [''quickstart''], dataset = Some quickstart,
          view = None, selected = [''sample1''],
          selected_objects = [], filters = [''label'' \<mapsto> ''cat''], close = False\<rparr>,
       ListDatasets,
       Push 5151
         \<lparr>datasets = [''quickstart''], dataset = Some quickstart,
          view = None, selected = [''sample1''],
          selected_objects = [], filters = [''label'' \<mapsto> ''cat''], close = False\<rparr>])
   \<and> state (fst (snd (Session_dataset_setter (env_of IPYTHON) None
                         (session_of IPYTHON 800 busy_state) []))) =
       \<lparr>datasets = [''quickstart''], dataset = None, view = None, selected = [],
        selected_objects = [], filters = Map.empty, close = False\<rparr>
   \<and> state (fst (snd (Session_view_setter (env_of IPYTHON) None
                         (session_of IPYTHON 800 busy_state) []))) =
       \<lparr>datasets = [''quickstart''], dataset = Some quickstart, view = None, selected = [],
        selected_objects = [], filters = Map.empty, close = False\<rparr>"
  by (simp add: session_of_def env_of_def busy_state_def session_defs Session_dataset_def Let_def)

section \<open>close\<close>

text \<open>
  C8. \<^verbatim>\<open>close()\<close> on a remote session changes nothing and pushes nothing; otherwise
  it sets the close flag, leaves every other field of the state as it was, and pushes,
  with no catalog refresh. Every other method that writes the state (\<^verbatim>\<open>show\<close>, the
  two setters, \<^verbatim>\<open>clear_dataset\<close>, \<^verbatim>\<open>clear_view\<close>, \<^verbatim>\<open>refresh\<close>), when it returns,
  has refreshed the catalog immediately before its final push.
\<close>

theorem close_is_the_unrefreshed_mutator:
  "Session_close s tr =
     (if s_remote s then (Inr (), s, tr)
      else (Inr (), s\<lparr>state := (state s)\<lparr>close := True\<rparr>\<rparr>,
            tr @ [Push (s_port s) ((state s)\<lparr>close := True\<rparr>)]))
   \<and> (m \<noteq> MClose \<and> mutate e m s tr = (Inr (), s', tr') \<longrightarrow>
        datasets (state s') = list_datasets e
        \<and> (\<exists>pre. tr' = tr @ pre @ [ListDatasets, Push (s_port s) (state s')]))"
proof -
  have A: "Session_close s tr =
     (if s_remote s then (Inr (), s, tr)
      else (Inr (), s\<lparr>state := (state s)\<lparr>close := True\<rparr>\<rparr>,
            tr @ [Push (s_port s) ((state s)\<lparr>close := True\<rparr>)]))"
    by (simp add: Session_close_def Session_update_state_def Let_def)
  have B: "datasets (state s') = list_datasets e
        \<and> (\<exists>pre. tr' = tr @ pre @ [ListDatasets, Push (s_port s) (state s')])"
    if ne: "m \<noteq> MClose" and run: "mutate e m s tr = (Inr (), s', tr')"
  proof (cases m)
    case (MShow h)
    with run have "update_state (show_body e h) e s tr = (Inr (), s', tr')"
      by (simp add: Session_show_def)
    then show ?thesis
      by (rule update_state_returns) (rule show_body_extends)
  next
    case (MSetDataset d)
    with run have "update_state (dataset_setter_body e d) e s tr = (Inr (), s', tr')"
      by (simp add: Session_dataset_setter_def)
    then show ?thesis
      by (rule update_state_returns) (rule dataset_setter_body_extends)
  next
    case MClearDataset
    with run have "update_state (clear_dataset_body) e s tr = (Inr (), s', tr')"
      by (simp add: Session_clear_dataset_def)
    then show ?thesis
      by (rule update_state_returns) (rule clear_dataset_body_extends)
  next
    case (MSetView v)
    with run have "update_state (view_setter_body e v) e s tr = (Inr (), s', tr')"
      by (simp add: Session_view_setter_def)
    then show ?thesis
      by (rule update_state_returns) (rule view_setter_body_extends)
  next
    case MClearView
    with run have "update_state (clear_view_body e) e s tr = (Inr (), s', tr')"
      by (simp add: Session_clear_view_def)
    then show ?thesis
      by (rule update_state_returns) (rule clear_view_body_extends)
  next
    case MRefresh
    with run have "update_state (refresh_body e) e s tr = (Inr (), s', tr')"
      by (simp add: Session_refresh_def)
    then show ?thesis
      by (rule update_state_returns) (rule refresh_body_extends)
  next
    case MClose
    with ne show ?thesis by simp
  qed
  from A B show ?thesis by blast
qed

theorem close_is_the_unrefreshed_mutator_witness:
  "MRefresh \<noteq> MClose
   \<and> mutate (env_of NONE) MRefresh (session_of NONE 800 busy_state) [] =
       (Inr (), session_of NONE 800 busy_state, [ListDatasets, Push 5151 busy_state])
   \<and> datasets (state (session_of NONE 800 busy_state)) = list_datasets (env_of NONE)
   \<and> Session_close (session_of NONE 800 busy_state) [] =
       (Inr (), session_of NONE 800 (busy_state\<lparr>close := True\<rparr>),
        [Push 5151 (busy_state\<lparr>close := True\<rparr>)])"
  using close_is_the_unrefreshed_mutator
          [of "session_of NONE 800 busy_state" "[]" MRefresh "env_of NONE"
              "session_of NONE 800 busy_state" "[ListDatasets, Push 5151 busy_state]"]
  by (simp add: session_of_def env_of_def busy_state_def session_defs Let_def)

section \<open>The height handed to the display\<close>

text \<open>
  C9. In a notebook context (of the session, and still of the process when the renderer
  is looked up), \<^verbatim>\<open>show(height)\<close> returns normally and renders exactly once, on the
  session's port, with this height: the caller's height when it is not 800; otherwise
  the session's configured height when that is not 800; otherwise 800.
\<close>

theorem show_height_precedence:
  assumes "s_context s \<noteq> NONE" and "get_context e \<noteq> NONE"
  shows "Session_show e height s tr =
           (Inr (),
            s\<lparr>state := (state s)\<lparr>datasets := list_datasets e\<rparr>\<rparr>,
            tr @ (case Session_dataset s of Some d \<Rightarrow> [DocReload d] | None \<Rightarrow> [])
               @ [ListDatasets,
                  (if get_context e = COLAB then DisplayColab else DisplayIpython) (s_port s)
                    (if height \<noteq> 800 then height
                     else if s_height s \<noteq> 800 then s_height s
                     else 800),
                  ListDatasets,
                  Push (s_port s) ((state s)\<lparr>datasets := list_datasets e\<rparr>)])"
  using assms
  by (cases "get_context e"; cases "Session_dataset s")
     (auto simp: Session_show_def update_state_def show_body_def display_def display'_def
        show_height_def Session_update_state_def Let_def)

theorem show_height_precedence_witness:
  "s_context (session_of IPYTHON 600 busy_state) \<noteq> NONE
   \<and> get_context (env_of IPYTHON) \<noteq> NONE
   \<and> snd (snd (Session_show (env_of IPYTHON) 800 (session_of IPYTHON 600 busy_state) [])) =
       [DocReload quickstart, ListDatasets, DisplayIpython 5151 600, ListDatasets,
        Push 5151 busy_state]
   \<and> snd (snd (Session_show (env_of IPYTHON) 400 (session_of IPYTHON 600 busy_state) [])) =
       [DocReload quickstart, ListDatasets, DisplayIpython 5151 400, ListDatasets,
        Push 5151 busy_state]"
  using show_height_precedence [of "session_of IPYTHON 600 busy_state" "env_of IPYTHON" 800 "[]"]
        show_height_precedence [of "session_of IPYTHON 600 busy_state" "env_of IPYTHON" 400 "[]"]
  by (simp add: session_of_def env_of_def busy_state_def Session_dataset_def)

section \<open>A remote session in a notebook\<close>

text \<open>
  C3, as stated, fails: the constructor raises only after lines 246 to 253 have run.
  In a fresh module, \<^verbatim>\<open>Session(remote=True)\<close> in a notebook raises, and the port then
  has a server service, started, and the new session among its subscribers.
\<close>

theorem remote_notebook_subscribes:
  "fst (Session_new (env_of IPYTHON) (args_of 5151 True None) world0) =
     Inl (ValueError RemoteFromNotebook)
   \<and> g_server_services (snd (snd (Session_new (env_of IPYTHON) (args_of 5151 True None) world0))) 5151
       = Some (ServerService 5151 False)
   \<and> g_subscribed_sessions (snd (snd (Session_new (env_of IPYTHON) (args_of 5151 True None) world0))) 5151
       = {0}
   \<and> trace (snd (snd (Session_new (env_of IPYTHON) (args_of 5151 True None) world0)))
       = [ServerServiceNew 5151 False]"
  by (simp add: Session_new_def Session_init_def acquire_def world0_def args_of_def env_of_def
        Let_def)

text \<open>
  C3, amended. Every construction with \<^verbatim>\<open>remote=True\<close> in a notebook context fails
  with the error "Remote sessions cannot be run from a notebook"; by then the port has
  a server service (the one it had, or a new one) and the new session is among the
  subscribers of the port.
\<close>

theorem remote_notebook_fails_after_acquiring:
  assumes "get_context e \<noteq> NONE" and "a_remote a"
  shows "fst (Session_new e a w) = Inl (ValueError RemoteFromNotebook)
       \<and> g_server_services (snd (snd (Session_new e a w))) (a_port a) =
           (case g_server_services w (a_port a) of
              None \<Rightarrow> Some (ServerService (a_port a) (config_do_not_track e))
            | Some service \<Rightarrow> Some service)
       \<and> g_subscribed_sessions (snd (snd (Session_new e a w))) (a_port a) =
           insert (next_id w) (g_subscribed_sessions w (a_port a))"
  using assms
  by (auto simp: Session_new_facts init_result_def acquire_def Let_def split: option.splits)

theorem remote_notebook_fails_after_acquiring_witness:
  "get_context (env_of COLAB) \<noteq> NONE \<and> a_remote (args_of 7000 True (Some False))
   \<and> fst (Session_new (env_of COLAB) (args_of 7000 True (Some False)) world0) =
       Inl (ValueError RemoteFromNotebook)
   \<and> g_server_services (snd (snd (Session_new (env_of COLAB) (args_of 7000 True (Some False)) world0))) 7000 =
       Some (ServerService 7000 False)
   \<and> g_subscribed_sessions (snd (snd (Session_new (env_of COLAB) (args_of 7000 True (Some False)) world0))) 7000 =
       {0}"
  using remote_notebook_fails_after_acquiring
          [of "env_of COLAB" "args_of 7000 True (Some False)" world0]
  by (simp add: env_of_def args_of_def world0_def)

section \<open>Launching again on the same port\<close>




section \<open>One server service per port\<close>

text \<open>
  C6. On a port with no server service and no subscriber, let any number of sessions
  (at least one) be constructed on the port, whether their constructors return or raise:
  exactly one server service is started, and all of them are subscribed. Let
  \<^verbatim>\<open>__del__\<close> run for all of them but one, in any order: the service is still
  registered and nothing is stopped. Let \<^verbatim>\<open>__del__\<close> run for the last one: the entry
  of the port is removed and the service stopped.
\<close>

theorem one_server_process_per_port:
  assumes "g_server_services w port = None" and "g_subscribed_sessions w port = {}"
      and "args \<noteq> []" and "\<forall>a \<in> set args. a_port a = port"
      and "x \<in> {next_id w ..< next_id w + length args}"
      and "set (map snd dels) = {next_id w ..< next_id w + length args} - {x}"
  shows "(let w1 = fold (\<lambda>a w. snd (snd (Session_new e a w))) args w;
              w2 = fold (\<lambda>d w. Session_del (fst d) (snd d) w) dels w1;
              w3 = Session_del young x w2
          in filter service_event (trace w1) =
               filter service_event (trace w) @ [ServerServiceNew port (config_do_not_track e)]
           \<and> g_server_services w1 port = Some (ServerService port (config_do_not_track e))
           \<and> g_subscribed_sessions w1 port = {next_id w ..< next_id w + length args}
           \<and> filter service_event (trace w2) = filter service_event (trace w1)
           \<and> g_server_services w2 port = Some (ServerService port (config_do_not_track e))
           \<and> g_subscribed_sessions w2 port = {x}
           \<and> filter service_event (trace w3) =
               filter service_event (trace w1) @ [ServerServiceStop port]
           \<and> g_server_services w3 port = None
           \<and> g_subscribed_sessions w3 port = {})"
proof -
  let ?w1 = "fold (\<lambda>a w. snd (snd (Session_new e a w))) args w"
  let ?w2 = "fold (\<lambda>d w. Session_del (fst d) (snd d) w) dels ?w1"
  let ?ids = "{next_id w ..< next_id w + length args}"
  note N = fold_Session_new_absent [OF assms(4) assms(1) assms(3), of e]
  have subs1: "g_subscribed_sessions ?w1 port = ?ids"
    using N assms(2) by simp
  have heap1: "\<exists>s. heap ?w1 i = Some s \<and> s_port s = port" if "i \<in> ?ids" for i
    using N that by auto
  have d1: "\<forall>d \<in> set dels. \<exists>s. heap ?w1 (snd d) = Some s \<and> s_port s = port"
  proof
    fix d assume "d \<in> set dels"
    then have "snd d \<in> set (map snd dels)" by simp
    then have "snd d \<in> ?ids" using assms(6) by blast
    then show "\<exists>s. heap ?w1 (snd d) = Some s \<and> s_port s = port" by (rule heap1)
  qed
  have left: "g_subscribed_sessions ?w1 port - set (map snd dels) = {x}"
    using subs1 assms(5,6) by auto
  then have d2: "g_subscribed_sessions ?w1 port - set (map snd dels) \<noteq> {}" by simp
  note K = fold_Session_del_keeps [OF d1 d2]
  have subs2: "g_subscribed_sessions ?w2 port = {x}" using K left by simp
  have svc2: "g_server_services ?w2 port = Some (ServerService port (config_do_not_track e))"
    using K N by simp
  obtain sx where hx: "heap ?w2 x = Some sx" "s_port sx = port"
    using heap1 [OF assms(5)] K by auto
  have e2: "g_subscribed_sessions ?w2 port - {x} = {}" using subs2 by simp
  note L2 = Session_del_port(2) [OF hx, of young]
  note L4 = Session_del_port(4) [OF hx e2 svc2, of young]
  show ?thesis
    unfolding Let_def using N subs1 K subs2 svc2 L2 L4 e2 by simp
qed

theorem one_server_process_per_port_witness:
  "g_server_services world0 5151 = None \<and> g_subscribed_sessions world0 5151 = {}
   \<and> filter service_event (trace (fold (\<lambda>a w. snd (snd (Session_new (env_of NONE) a w))) args3 world0)) =
       [ServerServiceNew 5151 False]
   \<and> g_subscribed_sessions
        (fold (\<lambda>a w. snd (snd (Session_new (env_of NONE) a w))) args3 world0) 5151 = {0, 1, 2}
   \<and> g_server_services
        (fold (\<lambda>d w. Session_del (fst d) (snd d) w) [(True, 2), (False, 0)]
          (fold (\<lambda>a w. snd (snd (Session_new (env_of NONE) a w))) args3 world0)) 5151 =
       Some (ServerService 5151 False)
   \<and> filter service_event
        (trace (Session_del False 1
          (fold (\<lambda>d w. Session_del (fst d) (snd d) w) [(True, 2), (False, 0)]
            (fold (\<lambda>a w. snd (snd (Session_new (env_of NONE) a w))) args3 world0)))) =
       [ServerServiceNew 5151 False, ServerServiceStop 5151]
   \<and> g_server_services
        (Session_del False 1
          (fold (\<lambda>d w. Session_del (fst d) (snd d) w) [(True, 2), (False, 0)]
            (fold (\<lambda>a w. snd (snd (Session_new (env_of NONE) a w))) args3 world0))) 5151 =
       None"
proof -
  have h1: "g_server_services world0 5151 = None"
    and h2: "g_subscribed_sessions world0 5151 = {}"
    and h3: "args3 \<noteq> []"
    and h4: "\<forall>a \<in> set args3. a_port a = 5151"
    and h5: "1 \<in> {next_id world0 ..< next_id world0 + length args3}"
    by (simp_all add: world0_def args3_def args_of_def)
  have h6: "set (map snd [(True, 2), (False, 0 :: nat)]) =
              {next_id world0 ..< next_id world0 + length args3} - {1}"
    by (auto simp: world0_def args3_def)
  have ids: "{next_id world0 ..< next_id world0 + length args3} = {0, 1, 2}"
    by (auto simp: world0_def args3_def)
  from one_server_process_per_port [OF h1 h2 h3 h4 h5 h6, of "env_of NONE" False]
  show ?thesis
    unfolding Let_def ids
    by (simp add: h1 h2 world0_def env_of_def)
qed

section \<open>The desktop argument in a notebook\<close>



end
